theory Spec2Isabelle
  imports Complex_Main
begin

section \<open>The widget SDK: data model\<close>

text \<open>
  The development embeds the abstract class \<open>KoruWidget\<close> (the current revision of the
  SDK; \<open>AppManagerWidget\<close> in \<open>src/widget.ts\<close> is its predecessor, with the same
  lifecycle methods, no preview mode, and the key prefix \<open>appmanager_widget_\<close>).

  The TypeScript types are taken as declared. \<open>WidgetConfig\<close> is an opaque string-keyed
  map, kept here as an association list.
\<close>

type_synonym WidgetConfig = "(string \<times> string) list"

record App =
  app_id :: string
  app_name :: string
  app_description :: string

record Website =
  website_id :: string
  website_url :: string
  is_ecommerce :: bool
  customer :: string

record AuthResponse =
  authorized :: bool
  config :: WidgetConfig
  token :: string
  app :: App
  website :: Website

text \<open>
  The resolved options of an instance. They are JavaScript numbers in the source; the
  model takes them at integer values (seconds, attempts, milliseconds).
\<close>

record options =
  cache :: bool
  cacheDuration :: int
  retryAttempts :: int
  retryDelay :: int
  analytics :: bool
  debug :: bool

text \<open>The private fields the constructor sets once and no method assigns again.\<close>

record widget =
  websiteId :: string
  appId :: string
  koruUrl :: string
  widgetName :: string
  widgetVersion :: string
  options :: options

text \<open>
  A thrown JavaScript value, as \<open>handleError\<close> tells them apart: an \<open>Error\<close> object
  with its message; any other value that \<open>String(value)\<close> renders, kept as the text it
  renders to; or a value that is not an \<open>Error\<close> and that \<open>String(value)\<close> cannot
  render, kept as what the rendering throws (for \<open>Object.create(null)\<close> a
  \<open>TypeError\<close>; for an object with a throwing \<open>toString\<close>, whatever that throws).
\<close>

datatype thrown = Error string | NonError string | Unrenderable thrown

text \<open>
  What one \<open>fetch\<close> of the authorization endpoint yields: the promise rejects (a
  transport error; the platform rejects with an error object, kept by its message), or
  it resolves to a response with a status and a body that \<open>response.json()\<close> decodes
  (to a value of the declared type \<open>AuthResponse\<close>) or rejects (again with an error
  object).
\<close>

datatype body = Json AuthResponse | NotJson string

datatype fetch_outcome = Rejected string | Response nat body

text \<open>
  What \<open>localStorage\<close> holds under a key, as \<open>getFromCache\<close> sees it after
  \<open>JSON.parse\<close>: a record \<open>{ data, timestamp }\<close> as \<open>saveToCache\<close> writes it, or a
  string that does not decode to one.
\<close>

datatype stored = Snapshot AuthResponse int | Malformed

text \<open>The observable effects, in the order they happen.\<close>

datatype event =
    Fetch string
  | Sleep int
  | CacheGet string
  | CacheSet string
  | CacheRemove string
  | OnInit WidgetConfig
  | OnRender WidgetConfig
  | OnDestroy
  | OnConfigUpdate WidgetConfig
  | ConsoleLog string string
  | ConsoleError string thrown
  | AnalyticsPost string string "(string \<times> string) list"
  | DOMContentLoaded

text \<open>
  The mutable state: the fields of the instance that its methods assign
  (\<open>this.config\<close>, \<open>this.authData\<close>, \<open>this.isInitialized\<close>), the state \<open>user\<close> of the
  subclass that the hooks work on, and the browser: the store, the clock (milliseconds),
  the preview slot \<open>window.__KORU_PREVIEW_CONFIG__\<close> (\<open>None\<close> when it is absent or
  falsy), the page origin, whether the document is still loading, the network (the
  outcome of the \<open>i\<close>-th authorization request), the number of requests issued so far,
  and the trace of effects.
\<close>

record 'u state =
  this_config :: WidgetConfig
  this_authData :: "AuthResponse option"
  isInitialized :: bool
  user :: 'u
  localStorage :: "string \<rightharpoonup> stored"
  now :: int
  preview :: "WidgetConfig option"
  origin :: string
  loading :: bool
  net :: "nat \<Rightarrow> fetch_outcome"
  requests :: nat
  trace :: "event list"

text \<open>
  The hooks a subclass supplies. A hook works on the subclass's own state (its fields
  and what it mounted, \<open>container\<close> included, which the base class never reads) and
  returns normally (\<open>None\<close>) or throws (\<open>Some e\<close>); a hook that throws may have changed
  that state before. \<open>onConfigUpdate\<close> is optional. Hooks are taken not to assign the
  fields of the base class themselves.
\<close>

record 'u hooks =
  onInit :: "WidgetConfig \<Rightarrow> 'u \<Rightarrow> thrown option \<times> 'u"
  onRender :: "WidgetConfig \<Rightarrow> 'u \<Rightarrow> thrown option \<times> 'u"
  onDestroy :: "'u \<Rightarrow> thrown option \<times> 'u"
  onConfigUpdate :: "(WidgetConfig \<Rightarrow> 'u \<Rightarrow> thrown option \<times> 'u) option"

section \<open>Rendering numbers in template strings\<close>

text \<open>
  A template literal renders a number in decimal. \<open>digits_onto\<close> puts the digits of
  \<open>n\<close> in front of an accumulator, least significant digit first.
\<close>

definition decimal_digit :: "nat \<Rightarrow> char" where
  "decimal_digit d = ''0123456789'' ! d"

fun digits_onto :: "nat \<Rightarrow> string \<Rightarrow> string" where
  "digits_onto n acc =
     (let acc' = decimal_digit (n mod 10) # acc
      in if n div 10 = 0 then acc' else digits_onto (n div 10) acc')"

definition nat_text :: "nat \<Rightarrow> string" where
  "nat_text n = digits_onto n []"

definition int_text :: "int \<Rightarrow> string" where
  "int_text i = (if 0 \<le> i then nat_text (nat i) else CHR ''-'' # nat_text (nat (- i)))"

declare digits_onto.simps [simp del]

section \<open>Helpers of the class\<close>

definition emit :: "event \<Rightarrow> 'u state \<Rightarrow> 'u state" where
  "emit e s = s\<lparr>trace := trace s @ [e]\<rparr>"

text \<open>\<open>log\<close>: prints only when the debug option is set.\<close>

definition log :: "widget \<Rightarrow> string \<Rightarrow> 'u state \<Rightarrow> 'u state" where
  "log w msg s =
     (if debug (options w) then emit (ConsoleLog (''['' @ widgetName w @ '']'') msg) s else s)"

text \<open>
  \<open>track\<close>: a fire-and-forget POST to the analytics endpoint when analytics is enabled.
  The custom event data follows the two fixed keys, as the object spread does. The
  request is not awaited and is not one of the authorization requests that \<open>net\<close>
  answers.
\<close>

definition track :: "widget \<Rightarrow> string \<Rightarrow> (string \<times> string) list \<Rightarrow> 'u state \<Rightarrow> 'u state" where
  "track w eventName eventData s =
     (if \<not> analytics (options w) then s
      else emit (AnalyticsPost (koruUrl w @ ''/api/analytics'') eventName
             ([(''widget'', widgetName w), (''version'', widgetVersion w)] @ eventData)) s)"

text \<open>
  The expression \<open>error instanceof Error ? error.message : String(error)\<close>: the text
  (\<open>Inr\<close>), or what \<open>String\<close> throws (\<open>Inl\<close>).
\<close>

fun error_text :: "thrown \<Rightarrow> thrown + string" where
  "error_text (Error m) = Inr m"
| "error_text (NonError v) = Inr v"
| "error_text (Unrenderable e) = Inl e"

text \<open>
  \<open>handleError\<close>: the console line, then, with analytics enabled, the telemetry event.
  The event data is built before \<open>track\<close> is entered, outside any \<open>try\<close>: when the
  rendering of the error throws, \<open>handleError\<close> throws that (\<open>Inl\<close>) and \<open>track\<close> is not
  called.
\<close>

definition handleError ::
  "widget \<Rightarrow> string \<Rightarrow> thrown \<Rightarrow> 'u state \<Rightarrow> (thrown + unit) \<times> 'u state" where
  "handleError w msg error s =
     (let s1 = emit (ConsoleError (''['' @ widgetName w @ ''] '' @ msg @ '':'') error) s
      in if analytics (options w)
         then (case error_text error of
                 Inl e \<Rightarrow> (Inl e, s1)
               | Inr text \<Rightarrow>
                   (Inr (), track w ''widget_error'' [(''error'', text), (''message'', msg)] s1))
         else (Inr (), s1))"

definition waitForDOM :: "'u state \<Rightarrow> 'u state" where
  "waitForDOM s = (if loading s then emit DOMContentLoaded (s\<lparr>loading := False\<rparr>) else s)"

text \<open>\<open>sleep\<close>: the timer fires after the delay; a negative delay fires at once. Sleeping
  is the only step the model lets the clock advance in.\<close>

definition sleep :: "int \<Rightarrow> 'u state \<Rightarrow> 'u state" where
  "sleep ms s = emit (Sleep ms) (s\<lparr>now := now s + max 0 ms\<rparr>)"

definition getCacheKey :: "widget \<Rightarrow> string" where
  "getCacheKey w = ''koru_widget_'' @ websiteId w @ ''_'' @ appId w"

text \<open>The key of the predecessor class \<open>AppManagerWidget\<close> (\<open>src/widget.ts\<close>): another
  prefix, the same join.\<close>

definition getCacheKey_AppManager :: "widget \<Rightarrow> string" where
  "getCacheKey_AppManager w = ''appmanager_widget_'' @ websiteId w @ ''_'' @ appId w"

definition clearCache :: "widget \<Rightarrow> 'u state \<Rightarrow> 'u state" where
  "clearCache w s =
     (let key = getCacheKey w
      in emit (CacheRemove key) (s\<lparr>localStorage := (localStorage s)(key := None)\<rparr>))"

definition getFromCache :: "widget \<Rightarrow> 'u state \<Rightarrow> AuthResponse option \<times> 'u state" where
  "getFromCache w s =
     (let key = getCacheKey w;
          s1 = emit (CacheGet key) s
      in case localStorage s key of
           None \<Rightarrow> (None, s1)
         | Some Malformed \<Rightarrow> (None, s1)
         | Some (Snapshot data timestamp) \<Rightarrow>
             (let age = (of_int (now s - timestamp) :: rat) / 1000
              in if age > of_int (cacheDuration (options w))
                 then (None, clearCache w s1)
                 else (Some data, s1)))"

definition saveToCache :: "widget \<Rightarrow> AuthResponse \<Rightarrow> 'u state \<Rightarrow> 'u state" where
  "saveToCache w data s =
     (let key = getCacheKey w
      in emit (CacheSet key) (s\<lparr>localStorage := (localStorage s)(key \<mapsto> Snapshot data (now s))\<rparr>))"

section \<open>Authorization\<close>

definition fetch :: "string \<Rightarrow> 'u state \<Rightarrow> fetch_outcome \<times> 'u state" where
  "fetch url s = (net s (requests s), emit (Fetch url) (s\<lparr>requests := Suc (requests s)\<rparr>))"

definition ok :: "nat \<Rightarrow> bool" where
  "ok status = (200 \<le> status \<and> status \<le> 299)"

definition authUrl :: "widget \<Rightarrow> string" where
  "authUrl w = koruUrl w @ ''/api/auth/widget?website_id='' @ websiteId w @ ''&app_id='' @ appId w"

text \<open>The body of the \<open>try\<close> block of one attempt: \<open>Inl\<close> is the value it throws.\<close>

definition try_attempt :: "widget \<Rightarrow> int \<Rightarrow> 'u state \<Rightarrow> (thrown + AuthResponse) \<times> 'u state" where
  "try_attempt w attempt s =
     (let s1 = log w (''Authorization attempt '' @ int_text attempt @ ''/''
                       @ int_text (retryAttempts (options w))) s;
          (response, s2) = fetch (authUrl w) s1
      in case response of
           Rejected m \<Rightarrow> (Inl (Error m), s2)
         | Response status b \<Rightarrow>
             if \<not> ok status
             then (Inl (Error (''Authorization failed: '' @ nat_text status)), s2)
             else (case b of
                     NotJson m \<Rightarrow> (Inl (Error m), s2)
                   | Json data \<Rightarrow>
                       (Inr data, if cache (options w) then saveToCache w data s2 else s2)))"

text \<open>The \<open>for\<close> loop of \<open>authorize\<close>, from a given attempt number, and the final \<open>throw\<close>.\<close>

function attempt_loop ::
  "widget \<Rightarrow> int \<Rightarrow> thrown option \<Rightarrow> 'u state \<Rightarrow> (thrown + AuthResponse) \<times> 'u state" where
  "attempt_loop w attempt lastError s =
     (if attempt \<le> retryAttempts (options w) then
        (case try_attempt w attempt s of
           (Inr data, s') \<Rightarrow> (Inr data, s')
         | (Inl error, s') \<Rightarrow>
             (let s1 = log w (''Authorization attempt '' @ int_text attempt @ '' failed:'') s';
                  s2 = (if attempt < retryAttempts (options w)
                        then sleep (retryDelay (options w)) s1 else s1)
              in attempt_loop w (attempt + 1) (Some error) s2))
      else (Inl (case lastError of None \<Rightarrow> Error ''Authorization failed'' | Some e \<Rightarrow> e), s))"
  by pat_completeness auto
termination
  by (relation "measure (\<lambda>(w, attempt, lastError, s). nat (retryAttempts (options w) + 1 - attempt))")
     auto

declare attempt_loop.simps [simp del]

definition preview_response :: "widget \<Rightarrow> 'u state \<Rightarrow> WidgetConfig \<Rightarrow> AuthResponse" where
  "preview_response w s p =
     \<lparr>authorized = True, config = p, token = ''preview-mode'',
      app = \<lparr>app_id = appId w, app_name = ''Preview Mode'',
             app_description = ''Widget running in Koru preview mode''\<rparr>,
      website = \<lparr>website_id = websiteId w, website_url = origin s,
                 is_ecommerce = False, customer = ''preview''\<rparr>\<rparr>"

definition authorize :: "widget \<Rightarrow> 'u state \<Rightarrow> (thrown + AuthResponse) \<times> 'u state" where
  "authorize w s =
     (case preview s of
        Some p \<Rightarrow> (Inr (preview_response w s p), log w ''Using Koru preview config'' s)
      | None \<Rightarrow>
          if cache (options w) then
            (case getFromCache w s of
               (Some cached, s1) \<Rightarrow> (Inr cached, log w ''Using cached authorization'' s1)
             | (None, s1) \<Rightarrow> attempt_loop w 1 None s1)
          else attempt_loop w 1 None s)"

section \<open>Lifecycle\<close>

definition call_onInit :: "'u hooks \<Rightarrow> WidgetConfig \<Rightarrow> 'u state \<Rightarrow> thrown option \<times> 'u state" where
  "call_onInit h c s =
     (let (r, u) = onInit h c (user s) in (r, emit (OnInit c) (s\<lparr>user := u\<rparr>)))"

definition call_onRender :: "'u hooks \<Rightarrow> WidgetConfig \<Rightarrow> 'u state \<Rightarrow> thrown option \<times> 'u state" where
  "call_onRender h c s =
     (let (r, u) = onRender h c (user s) in (r, emit (OnRender c) (s\<lparr>user := u\<rparr>)))"

definition call_onDestroy :: "'u hooks \<Rightarrow> 'u state \<Rightarrow> thrown option \<times> 'u state" where
  "call_onDestroy h s =
     (let (r, u) = onDestroy h (user s) in (r, emit OnDestroy (s\<lparr>user := u\<rparr>)))"

definition call_onConfigUpdate ::
  "(WidgetConfig \<Rightarrow> 'u \<Rightarrow> thrown option \<times> 'u) \<Rightarrow> WidgetConfig \<Rightarrow> 'u state \<Rightarrow> thrown option \<times> 'u state" where
  "call_onConfigUpdate f c s =
     (let (r, u) = f c (user s) in (r, emit (OnConfigUpdate c) (s\<lparr>user := u\<rparr>)))"

text \<open>
  Each public method is a \<open>try\<close> block and a \<open>catch\<close> that calls \<open>handleError\<close>. The
  \<open>_try\<close> function is the block (\<open>Inl e\<close>: it throws \<open>e\<close>); the method itself returns
  \<open>Inr ()\<close> when its promise resolves and \<open>Inl e\<close> when it rejects with \<open>e\<close>, which is
  what happens when \<open>handleError\<close> throws inside the \<open>catch\<close>.
\<close>

definition start_try :: "'u hooks \<Rightarrow> widget \<Rightarrow> 'u state \<Rightarrow> (thrown + unit) \<times> 'u state" where
  "start_try h w s =
     (let s1 = waitForDOM s
      in case authorize w s1 of
           (Inl e, s2) \<Rightarrow> (Inl e, s2)
         | (Inr r, s2) \<Rightarrow>
             (let s3 = s2\<lparr>this_authData := Some r\<rparr>
              in if \<not> authorized r then (Inr (), log w ''Widget not authorized'' s3)
                 else
                   (let s4 = s3\<lparr>this_config := config r\<rparr>
                    in case call_onInit h (this_config s4) s4 of
                         (Some e, s5) \<Rightarrow> (Inl e, s5)
                       | (None, s5) \<Rightarrow>
                           (case call_onRender h (this_config s5) s5 of
                              (Some e, s6) \<Rightarrow> (Inl e, s6)
                            | (None, s6) \<Rightarrow>
                                (let s7 = log w ''Widget started successfully''
                                            (s6\<lparr>isInitialized := True\<rparr>)
                                 in (Inr (),
                                     if analytics (options w)
                                     then track w ''widget_loaded''
                                            [(''widget'', widgetName w),
                                             (''version'', widgetVersion w)] s7
                                     else s7))))))"

definition start :: "'u hooks \<Rightarrow> widget \<Rightarrow> 'u state \<Rightarrow> (thrown + unit) \<times> 'u state" where
  "start h w s =
     (case start_try h w s of
        (Inl error, s') \<Rightarrow> handleError w ''Failed to start widget'' error s'
      | (Inr u, s') \<Rightarrow> (Inr u, s'))"

definition stop_try :: "'u hooks \<Rightarrow> widget \<Rightarrow> 'u state \<Rightarrow> (thrown + unit) \<times> 'u state" where
  "stop_try h w s =
     (case call_onDestroy h s of
        (Some e, s1) \<Rightarrow> (Inl e, s1)
      | (None, s1) \<Rightarrow> (Inr (), log w ''Widget stopped'' (s1\<lparr>isInitialized := False\<rparr>)))"

definition stop :: "'u hooks \<Rightarrow> widget \<Rightarrow> 'u state \<Rightarrow> (thrown + unit) \<times> 'u state" where
  "stop h w s =
     (case stop_try h w s of
        (Inl error, s') \<Rightarrow> handleError w ''Failed to stop widget'' error s'
      | (Inr u, s') \<Rightarrow> (Inr u, s'))"

definition reload_try :: "'u hooks \<Rightarrow> widget \<Rightarrow> 'u state \<Rightarrow> (thrown + unit) \<times> 'u state" where
  "reload_try h w s =
     (let s1 = clearCache w s
      in case authorize w s1 of
           (Inl e, s2) \<Rightarrow> (Inl e, s2)
         | (Inr r, s2) \<Rightarrow>
             (let s3 = s2\<lparr>this_authData := Some r\<rparr>
              in if \<not> authorized r then (Inr (), s3)
                 else
                   (let newConfig = config r;
                        (res, s4) =
                          (case onConfigUpdate h of
                             Some f \<Rightarrow> call_onConfigUpdate f newConfig s3
                           | None \<Rightarrow>
                               (case call_onDestroy h s3 of
                                  (Some e, s') \<Rightarrow> (Some e, s')
                                | (None, s') \<Rightarrow> call_onRender h newConfig s'))
                    in case res of
                         Some e \<Rightarrow> (Inl e, s4)
                       | None \<Rightarrow>
                           (Inr (), log w ''Widget reloaded'' (s4\<lparr>this_config := newConfig\<rparr>)))))"

definition reload :: "'u hooks \<Rightarrow> widget \<Rightarrow> 'u state \<Rightarrow> (thrown + unit) \<times> 'u state" where
  "reload h w s =
     (case reload_try h w s of
        (Inl error, s') \<Rightarrow> handleError w ''Failed to reload widget'' error s'
      | (Inr u, s') \<Rightarrow> (Inr u, s'))"

section \<open>Observations on traces\<close>

text \<open>The events a call appends to the trace: what happened during the call.\<close>

definition new_events :: "'u state \<Rightarrow> 'u state \<Rightarrow> event list" where
  "new_events s s' = drop (length (trace s)) (trace s')"

fun is_fetch :: "event \<Rightarrow> bool" where
  "is_fetch (Fetch url) = True"
| "is_fetch e = False"

fun is_sleep :: "event \<Rightarrow> bool" where
  "is_sleep (Sleep ms) = True"
| "is_sleep e = False"

fun is_cache_access :: "event \<Rightarrow> bool" where
  "is_cache_access (CacheGet k) = True"
| "is_cache_access (CacheSet k) = True"
| "is_cache_access (CacheRemove k) = True"
| "is_cache_access e = False"

fun is_hook_call :: "event \<Rightarrow> bool" where
  "is_hook_call (OnInit c) = True"
| "is_hook_call (OnRender c) = True"
| "is_hook_call OnDestroy = True"
| "is_hook_call (OnConfigUpdate c) = True"
| "is_hook_call e = False"

text \<open>What \<open>handleError\<close> emits for a caught error: the console line, then the telemetry
  event when analytics is enabled and the error renders.\<close>

definition error_report :: "widget \<Rightarrow> string \<Rightarrow> thrown \<Rightarrow> event list" where
  "error_report w msg error =
     ConsoleError (''['' @ widgetName w @ ''] '' @ msg @ '':'') error #
     (if analytics (options w)
      then (case error_text error of
              Inl e \<Rightarrow> []
            | Inr text \<Rightarrow>
                [AnalyticsPost (koruUrl w @ ''/api/analytics'') ''widget_error''
                   [(''widget'', widgetName w), (''version'', widgetVersion w),
                    (''error'', text), (''message'', msg)]])
      else [])"

text \<open>An error that \<open>handleError\<close> reports without throwing itself: analytics is off
  (nothing is rendered), or the error renders to a text.\<close>

definition reportable :: "widget \<Rightarrow> thrown \<Rightarrow> bool" where
  "reportable w error =
     (if analytics (options w)
      then (case error_text error of Inl e \<Rightarrow> False | Inr text \<Rightarrow> True)
      else True)"




text \<open>The hook invocations recorded in the trace of a state.\<close>

definition hook_calls :: "'u state \<Rightarrow> event list" where
  "hook_calls s = filter is_hook_call (trace s)"

text \<open>A step of the base class that runs no hook: it leaves the instance fields, the
  subclass state, the network and the preview slot alone.\<close>

definition quiet_step :: "'u state \<Rightarrow> 'u state \<Rightarrow> bool" where
  "quiet_step s s' =
     (this_config s' = this_config s \<and> this_authData s' = this_authData s \<and>
      isInitialized s' = isInitialized s \<and> user s' = user s \<and>
      net s' = net s \<and> preview s' = preview s \<and> hook_calls s' = hook_calls s)"

section \<open>Example instances\<close>

text \<open>The defaults the constructor merges the caller's options into.\<close>

definition default_options :: options where
  "default_options =
     \<lparr>cache = True, cacheDuration = 3600, retryAttempts = 3, retryDelay = 1000,
      analytics = False, debug = False\<rparr>"

definition demo_widget :: widget where
  "demo_widget =
     \<lparr>websiteId = ''site1'', appId = ''app1'', koruUrl = ''https://koru.example'',
      widgetName = ''my-widget'', widgetVersion = ''1.0.0'', options = default_options\<rparr>"

text \<open>A fresh instance on a loaded page, with an empty store and a network that is down.\<close>

definition demo_state :: "nat state" where
  "demo_state =
     \<lparr>this_config = [], this_authData = None, isInitialized = False, user = 0,
      localStorage = Map.empty, now = 5000000, preview = None,
      origin = ''https://shop.example'', loading = False,
      net = (\<lambda>i. Rejected ''Failed to fetch''), requests = 0, trace = []\<rparr>"

text \<open>Hooks that count their calls in the subclass state, and a variant whose
  \<open>onDestroy\<close> throws.\<close>

definition counting_hooks :: "nat hooks" where
  "counting_hooks =
     \<lparr>onInit = (\<lambda>c u. (None, Suc u)), onRender = (\<lambda>c u. (None, Suc u)),
      onDestroy = (\<lambda>u. (None, Suc u)), onConfigUpdate = None\<rparr>"


text \<open>Hooks whose \<open>onInit\<close> and \<open>onDestroy\<close> throw \<open>Object.create(null)\<close>, a value that
  \<open>String\<close> cannot render; an instance with analytics enabled; a page with the preview
  slot populated.\<close>

definition bare_object :: thrown where
  "bare_object = Unrenderable (Error ''Cannot convert object to primitive value'')"

definition bare_throwing_hooks :: "nat hooks" where
  "bare_throwing_hooks =
     counting_hooks\<lparr>onInit := (\<lambda>c u. (Some bare_object, u)),
                    onDestroy := (\<lambda>u. (Some bare_object, u))\<rparr>"

definition analytics_widget :: widget where
  "analytics_widget = demo_widget\<lparr>options := default_options\<lparr>analytics := True\<rparr>\<rparr>"

definition preview_state :: "nat state" where
  "preview_state = demo_state\<lparr>preview := Some [(''title'', ''Draft'')], isInitialized := True\<rparr>"

definition demo_response :: AuthResponse where
  "demo_response =
     \<lparr>authorized = True, config = [(''title'', ''Hello'')], token = ''t0'',
      app = \<lparr>app_id = ''app1'', app_name = ''Demo'', app_description = ''Demo app''\<rparr>,
      website = \<lparr>website_id = ''site1'', website_url = ''https://shop.example'',
                 is_ecommerce = True, customer = ''c1''\<rparr>\<rparr>"

text \<open>A running instance whose network now answers every request with a refusal.\<close>

definition refusal :: AuthResponse where
  "refusal = demo_response\<lparr>authorized := False, config := [(''title'', ''Blocked'')]\<rparr>"

definition refused_state :: "nat state" where
  "refused_state =
     demo_state\<lparr>this_config := [(''title'', ''Hello'')], this_authData := Some demo_response,
                isInitialized := True, net := (\<lambda>i. Response 200 (Json refusal))\<rparr>"

text \<open>An instance whose store holds a snapshot taken 1000 seconds ago, and one whose
  snapshot is 4000 seconds old.\<close>

definition cached_state :: "nat state" where
  "cached_state =
     demo_state\<lparr>localStorage := [getCacheKey demo_widget \<mapsto> Snapshot demo_response 4000000]\<rparr>"

definition stale_state :: "nat state" where
  "stale_state =
     demo_state\<lparr>localStorage := [getCacheKey demo_widget \<mapsto> Snapshot demo_response 1000000]\<rparr>"

section \<open>Basic facts\<close>

lemma log_trace:
  "trace (log w msg s) =
     trace s @ (if debug (options w) then [ConsoleLog (''['' @ widgetName w @ '']'') msg] else [])"
  by (simp add: log_def emit_def)

lemma split_at_separator:
  "c \<notin> set xs \<Longrightarrow> c \<notin> set ys \<Longrightarrow> xs @ c # as = ys @ c # bs \<Longrightarrow> xs = ys \<and> as = bs"
proof (induction xs arbitrary: ys)
  case Nil
  then show ?case by (cases ys) auto
next
  case (Cons x xs)
  then show ?case by (cases ys) auto
qed

lemma getCacheKey_eq_iff:
  "getCacheKey w1 = getCacheKey w2 \<longleftrightarrow>
     websiteId w1 @ CHR ''_'' # appId w1 = websiteId w2 @ CHR ''_'' # appId w2"
  by (simp add: getCacheKey_def)

lemma getCacheKey_AppManager_eq_iff:
  "getCacheKey_AppManager w1 = getCacheKey_AppManager w2 \<longleftrightarrow> getCacheKey w1 = getCacheKey w2"
  by (simp add: getCacheKey_AppManager_def getCacheKey_def)

subsection \<open>The preview path\<close>

lemma authorize_preview_eq:
  "preview s = Some p \<Longrightarrow>
   authorize w s = (Inr (preview_response w s p), log w ''Using Koru preview config'' s)"
  by (simp add: authorize_def)

lemma preview_response_fields:
  "authorized (preview_response w s p) \<and> config (preview_response w s p) = p"
  by (simp add: preview_response_def)

lemma authorize_preview_store:
  "preview s = Some p \<Longrightarrow>
   localStorage (snd (authorize w s)) = localStorage s \<and>
   requests (snd (authorize w s)) = requests s"
  by (simp add: authorize_preview_eq log_def emit_def)

lemma authorize_preview_events:
  "preview s = Some p \<Longrightarrow>
   filter (\<lambda>e. is_cache_access e \<or> is_fetch e) (new_events s (snd (authorize w s))) = []"
  by (simp add: authorize_preview_eq new_events_def log_trace)

subsection \<open>\<open>handleError\<close>\<close>

lemma handleError_snd:
  "snd (handleError w msg e s) = s\<lparr>trace := trace s @ error_report w msg e\<rparr>"
  by (cases "error_text e")
     (simp_all add: handleError_def track_def emit_def error_report_def Let_def)

lemma handleError_reportable:
  "reportable w e \<Longrightarrow> fst (handleError w msg e s) = Inr ()"
  by (auto simp: handleError_def reportable_def Let_def split: if_splits sum.splits)

lemma handleError_throws:
  "analytics (options w) \<Longrightarrow> error_text e = Inl x \<Longrightarrow> fst (handleError w msg e s) = Inl x"
  by (simp add: handleError_def Let_def)


lemma error_report_no_destroy: "count_list (error_report w msg e) OnDestroy = 0"
  by (cases "error_text e"; cases "analytics (options w)") (simp_all add: error_report_def)

lemma error_report_no_hook: "filter is_hook_call (error_report w msg e) = []"
  by (cases "error_text e"; cases "analytics (options w)") (simp_all add: error_report_def)

subsection \<open>\<open>stop\<close>\<close>

lemma stop_try_eq:
  "stop_try h w s =
     (case fst (onDestroy h (user s)) of
        None \<Rightarrow> (Inr (), log w ''Widget stopped''
                           (emit OnDestroy (s\<lparr>user := snd (onDestroy h (user s))\<rparr>)
                              \<lparr>isInitialized := False\<rparr>))
      | Some e \<Rightarrow> (Inl e, emit OnDestroy (s\<lparr>user := snd (onDestroy h (user s))\<rparr>)))"
proof (cases "onDestroy h (user s)")
  case (Pair r u)
  then show ?thesis by (cases r) (simp_all add: stop_try_def call_onDestroy_def)
qed

lemma stop_normal:
  "fst (onDestroy h (user s)) = None \<Longrightarrow>
   stop h w s = (Inr (), log w ''Widget stopped''
                           (emit OnDestroy (s\<lparr>user := snd (onDestroy h (user s))\<rparr>)
                              \<lparr>isInitialized := False\<rparr>))"
  by (simp add: stop_def stop_try_eq)

lemma stop_caught:
  "fst (onDestroy h (user s)) = Some e \<Longrightarrow>
   stop h w s = handleError w ''Failed to stop widget'' e
                  (emit OnDestroy (s\<lparr>user := snd (onDestroy h (user s))\<rparr>))"
  by (simp add: stop_def stop_try_eq)

lemma stop_trace:
  "trace (snd (stop h w s)) =
     trace s @ OnDestroy #
       (case fst (onDestroy h (user s)) of
          None \<Rightarrow> (if debug (options w)
                    then [ConsoleLog (''['' @ widgetName w @ '']'') ''Widget stopped''] else [])
        | Some e \<Rightarrow> error_report w ''Failed to stop widget'' e)"
proof (cases "fst (onDestroy h (user s))")
  case None
  then show ?thesis by (simp add: stop_normal log_def emit_def)
next
  case (Some e)
  then show ?thesis by (simp add: stop_caught handleError_snd emit_def)
qed

lemma stop_destroy_count:
  "count_list (trace (snd (stop h w s))) OnDestroy = Suc (count_list (trace s) OnDestroy)"
  by (simp add: stop_trace error_report_no_destroy split: option.splits)


lemma stop_user:
  "user (snd (stop h w s)) = snd (onDestroy h (user s))"
proof (cases "fst (onDestroy h (user s))")
  case None
  then show ?thesis by (simp add: stop_normal log_def emit_def)
next
  case (Some e)
  then show ?thesis by (simp add: stop_caught handleError_snd emit_def)
qed

lemma stop_returns_normal:
  "fst (onDestroy h (user s)) = None \<Longrightarrow> fst (stop h w s) = Inr ()"
  by (simp add: stop_normal)


subsection \<open>The retry loop when every request fails\<close>




subsection \<open>Steps that run no hook\<close>

lemma quiet_refl: "quiet_step s s"
  by (simp add: quiet_step_def)

lemma quiet_trans: "quiet_step s s1 \<Longrightarrow> quiet_step s1 s2 \<Longrightarrow> quiet_step s s2"
  by (simp add: quiet_step_def)

lemma quiet_emit: "\<not> is_hook_call e \<Longrightarrow> quiet_step s (emit e s)"
  by (simp add: quiet_step_def emit_def hook_calls_def)

lemma quiet_log: "quiet_step s (log w msg s)"
  by (simp add: log_def quiet_emit quiet_refl)

lemma quiet_sleep: "quiet_step s (sleep ms s)"
  by (simp add: quiet_step_def sleep_def emit_def hook_calls_def)

lemma quiet_clearCache: "quiet_step s (clearCache w s)"
  by (simp add: quiet_step_def clearCache_def emit_def hook_calls_def Let_def)

lemma quiet_saveToCache: "quiet_step s (saveToCache w data s)"
  by (simp add: quiet_step_def saveToCache_def emit_def hook_calls_def Let_def)

lemma quiet_fetch: "quiet_step s (snd (fetch url s))"
  by (simp add: quiet_step_def fetch_def emit_def hook_calls_def)

lemma quiet_track: "quiet_step s (track w name data s)"
  by (simp add: track_def quiet_emit quiet_refl)

lemma quiet_handleError: "quiet_step s (snd (handleError w msg e s))"
  by (simp add: quiet_step_def handleError_snd hook_calls_def error_report_no_hook)

lemma quiet_waitForDOM: "quiet_step s (waitForDOM s)"
  by (simp add: quiet_step_def waitForDOM_def emit_def hook_calls_def)

lemma quiet_getFromCache: "quiet_step s (snd (getFromCache w s))"
proof -
  have a: "quiet_step s (emit (CacheGet (getCacheKey w)) s)" by (simp add: quiet_emit)
  have b: "quiet_step s (clearCache w (emit (CacheGet (getCacheKey w)) s))"
    using a quiet_clearCache by (rule quiet_trans)
  show ?thesis
    using a b by (simp add: getFromCache_def Let_def split: option.splits stored.splits)
qed

lemma quiet_try_attempt: "quiet_step s (snd (try_attempt w a s))"
proof -
  obtain resp s2 where
    f: "fetch (authUrl w)
          (log w (''Authorization attempt '' @ int_text a @ ''/''
                    @ int_text (retryAttempts (options w))) s) = (resp, s2)"
    by (cases "fetch (authUrl w)
          (log w (''Authorization attempt '' @ int_text a @ ''/''
                    @ int_text (retryAttempts (options w))) s)")
  have "quiet_step s (snd (fetch (authUrl w)
          (log w (''Authorization attempt '' @ int_text a @ ''/''
                    @ int_text (retryAttempts (options w))) s)))"
    using quiet_log quiet_fetch by (rule quiet_trans)
  then have b: "quiet_step s s2" by (simp only: f snd_conv)
  have c: "quiet_step s (saveToCache w data s2)" for data
    using b quiet_saveToCache by (rule quiet_trans)
  show ?thesis
    using f b c
    by (simp add: try_attempt_def split: fetch_outcome.splits body.splits)
qed

lemma quiet_attempt_loop: "quiet_step s (snd (attempt_loop w a le s))"
proof (induction "nat (retryAttempts (options w) + 1 - a)" arbitrary: a le s)
  case 0
  then have "\<not> a \<le> retryAttempts (options w)" by simp
  then show ?case by (simp add: attempt_loop.simps quiet_refl)
next
  case (Suc k)
  let ?N = "retryAttempts (options w)"
  have le: "a \<le> ?N" using Suc.hyps(2) by simp
  obtain r s2 where ta: "try_attempt w a s = (r, s2)" by (cases "try_attempt w a s")
  have q2: "quiet_step s s2" using quiet_try_attempt [of s w a] ta by simp
  show ?case
  proof (cases r)
    case (Inr data)
    then show ?thesis using le ta q2 by (subst attempt_loop.simps) simp
  next
    case (Inl e)
    define s3 where "s3 = log w (''Authorization attempt '' @ int_text a @ '' failed:'') s2"
    define s4 where "s4 = (if a < ?N then sleep (retryDelay (options w)) s3 else s3)"
    have q3: "quiet_step s s3" using q2 quiet_log unfolding s3_def by (rule quiet_trans)
    have q4: "quiet_step s s4"
      using q3 quiet_trans [OF q3 quiet_sleep] by (simp add: s4_def)
    have unfold: "attempt_loop w a le s = attempt_loop w (a + 1) (Some e) s4"
      using le ta Inl by (subst attempt_loop.simps) (simp add: s3_def s4_def Let_def)
    have k: "k = nat (?N + 1 - (a + 1))" using Suc.hyps(2) by simp
    have "quiet_step s4 (snd (attempt_loop w (a + 1) (Some e) s4))"
      using k by (rule Suc.hyps(1))
    with q4 show ?thesis unfolding unfold by (rule quiet_trans)
  qed
qed

lemma quiet_authorize: "quiet_step s (snd (authorize w s))"
proof (cases "preview s")
  case (Some p)
  then show ?thesis by (simp add: authorize_def quiet_log)
next
  case None
  show ?thesis
  proof (cases "cache (options w)")
    case False
    then show ?thesis using None by (simp add: authorize_def quiet_attempt_loop)
  next
    case True
    obtain c s1 where g: "getFromCache w s = (c, s1)" by (cases "getFromCache w s")
    have q1: "quiet_step s s1" using quiet_getFromCache [of s w] g by simp
    show ?thesis
    proof (cases c)
      case None
      then show ?thesis
        using \<open>preview s = None\<close> True g quiet_trans [OF q1 quiet_attempt_loop]
        by (simp add: authorize_def)
    next
      case (Some cached)
      then show ?thesis
        using \<open>preview s = None\<close> True g quiet_trans [OF q1 quiet_log]
        by (simp add: authorize_def)
    qed
  qed
qed

lemma hook_calls_emit:
  "hook_calls (emit e s) = hook_calls s @ (if is_hook_call e then [e] else [])"
  by (simp add: hook_calls_def emit_def)

lemma hook_calls_quiet: "quiet_step s s' \<Longrightarrow> hook_calls s' = hook_calls s"
  by (simp add: quiet_step_def)

lemma hook_calls_update:
  "hook_calls (s\<lparr>this_authData := a\<rparr>) = hook_calls s"
  "hook_calls (s\<lparr>this_config := c\<rparr>) = hook_calls s"
  "hook_calls (s\<lparr>isInitialized := b\<rparr>) = hook_calls s"
  "hook_calls (s\<lparr>user := u\<rparr>) = hook_calls s"
  by (simp_all add: hook_calls_def)

lemma hook_calls_log: "hook_calls (log w msg s) = hook_calls s"
  using quiet_log by (rule hook_calls_quiet)

lemma hook_calls_track: "hook_calls (track w n d s) = hook_calls s"
  using quiet_track by (rule hook_calls_quiet)

lemma hook_calls_handleError: "hook_calls (snd (handleError w msg e s)) = hook_calls s"
  using quiet_handleError by (rule hook_calls_quiet)

subsection \<open>\<open>reload\<close> on an unauthorized response\<close>

lemma reload_fresh_quiet:
  "quiet_step s (snd (authorize w (clearCache w s)))"
  using quiet_clearCache quiet_authorize by (rule quiet_trans)

lemma reload_unauthorized_eq:
  assumes "authorize w (clearCache w s) = (Inr r, s2)" and "\<not> authorized r"
  shows "reload h w s = (Inr (), s2\<lparr>this_authData := Some r\<rparr>)"
  using assms by (simp add: reload_def reload_try_def)

lemma reload_unauthorized_aux:
  assumes "fst (authorize w (clearCache w s)) = Inr r" and "\<not> authorized r"
  shows "fst (reload h w s) = Inr () \<and>
         hook_calls (snd (reload h w s)) = hook_calls s \<and>
         user (snd (reload h w s)) = user s \<and>
         this_config (snd (reload h w s)) = this_config s \<and>
         this_authData (snd (reload h w s)) = Some r"
proof -
  obtain s2 where a: "authorize w (clearCache w s) = (Inr r, s2)"
    using assms(1) by (cases "authorize w (clearCache w s)") simp
  have q: "quiet_step s s2" using reload_fresh_quiet [of s w] a by simp
  have e: "reload h w s = (Inr (), s2\<lparr>this_authData := Some r\<rparr>)"
    using a assms(2) by (rule reload_unauthorized_eq)
  show ?thesis using q by (simp add: e hook_calls_update quiet_step_def)
qed

subsection \<open>The refusing network, evaluated\<close>

lemma refused_fresh:
  "fst (authorize demo_widget (clearCache demo_widget refused_state)) = Inr refusal"
  by (simp add: authorize_def clearCache_def getFromCache_def attempt_loop.simps
        try_attempt_def fetch_def log_def emit_def saveToCache_def ok_def Let_def
        refused_state_def demo_state_def demo_widget_def default_options_def)

lemma refused_start:
  "fst (authorize demo_widget (waitForDOM refused_state)) = Inr refusal"
  by (simp add: authorize_def waitForDOM_def getFromCache_def attempt_loop.simps
        try_attempt_def fetch_def log_def emit_def saveToCache_def ok_def Let_def
        refused_state_def demo_state_def demo_widget_def default_options_def)

lemma refusal_unauthorized: "\<not> authorized refusal"
  by (simp add: refusal_def)

subsection \<open>\<open>reload\<close> stores the response first\<close>

lemma reload_authData:
  assumes "fst (authorize w (clearCache w s)) = Inr r"
  shows "this_authData (snd (reload h w s)) = Some r"
proof (cases "authorized r")
  case False
  with assms show ?thesis using reload_unauthorized_aux [of w s r h] by simp
next
  case True
  obtain s2 where a: "authorize w (clearCache w s) = (Inr r, s2)"
    using assms by (cases "authorize w (clearCache w s)") simp
  show ?thesis
  proof (cases "onConfigUpdate h")
    case (Some f)
    obtain res u where f: "f (config r) (user s2) = (res, u)" by (cases "f (config r) (user s2)")
    show ?thesis
      using a True Some f
      by (cases res)
         (simp_all add: reload_def reload_try_def call_onConfigUpdate_def emit_def log_def
            handleError_snd Let_def)
  next
    case None
    obtain rd ud where d: "onDestroy h (user s2) = (rd, ud)" by (cases "onDestroy h (user s2)")
    show ?thesis
    proof (cases rd)
      case (Some e)
      then show ?thesis
        using a True None d
        by (simp add: reload_def reload_try_def call_onDestroy_def emit_def
              handleError_snd Let_def)
    next
      case rdNone: None
      obtain rr ur where rn: "onRender h (config r) ud = (rr, ur)"
        by (cases "onRender h (config r) ud")
      show ?thesis
        using a True None d rdNone rn
        by (cases rr)
           (simp_all add: reload_def reload_try_def call_onDestroy_def call_onRender_def
              emit_def log_def handleError_snd Let_def)
    qed
  qed
qed

subsection \<open>The hooks \<open>start\<close> and \<open>reload\<close> invoke\<close>

lemma emit_fields:
  "this_config (emit e s) = this_config s"
  "this_authData (emit e s) = this_authData s"
  "isInitialized (emit e s) = isInitialized s"
  "user (emit e s) = user s"
  by (simp_all add: emit_def)

lemma start_fresh_quiet: "quiet_step s (snd (authorize w (waitForDOM s)))"
  using quiet_waitForDOM quiet_authorize by (rule quiet_trans)

lemma start_unauthorized_aux:
  assumes "fst (authorize w (waitForDOM s)) = Inr r" and "\<not> authorized r"
  shows "fst (start h w s) = Inr () \<and>
         hook_calls (snd (start h w s)) = hook_calls s \<and>
         user (snd (start h w s)) = user s \<and>
         isInitialized (snd (start h w s)) = isInitialized s \<and>
         this_config (snd (start h w s)) = this_config s"
proof -
  obtain s2 where a: "authorize w (waitForDOM s) = (Inr r, s2)"
    using assms(1) by (cases "authorize w (waitForDOM s)") simp
  have q: "quiet_step s s2" using start_fresh_quiet [of s w] a by simp
  have e: "start h w s = (Inr (), log w ''Widget not authorized'' (s2\<lparr>this_authData := Some r\<rparr>))"
    using a assms(2) by (simp add: start_def start_try_def)
  have hc: "hook_calls (snd (start h w s)) = hook_calls s"
    using q by (simp add: e hook_calls_log hook_calls_update quiet_step_def)
  have fields: "user (snd (start h w s)) = user s \<and>
         isInitialized (snd (start h w s)) = isInitialized s \<and>
         this_config (snd (start h w s)) = this_config s"
    using q by (simp add: e quiet_step_def log_def emit_def)
  show ?thesis using hc fields by (simp add: e)
qed

lemma start_hook_calls:
  "hook_calls (snd (start h w s)) = hook_calls s \<or>
   (\<exists>r. fst (authorize w (waitForDOM s)) = Inr r \<and> authorized r \<and>
        (hook_calls (snd (start h w s)) = hook_calls s @ [OnInit (config r)] \<or>
         hook_calls (snd (start h w s)) = hook_calls s @ [OnInit (config r), OnRender (config r)]))"
proof -
  obtain res s2 where a: "authorize w (waitForDOM s) = (res, s2)"
    by (cases "authorize w (waitForDOM s)")
  have q: "hook_calls s2 = hook_calls s"
    using start_fresh_quiet [of s w] a by (simp add: quiet_step_def)
  show ?thesis
  proof (cases res)
    case (Inl e)
    then have "hook_calls (snd (start h w s)) = hook_calls s"
      using a q by (simp add: start_def start_try_def hook_calls_handleError)
    then show ?thesis by simp
  next
    case (Inr r)
    show ?thesis
    proof (cases "authorized r")
      case False
      then show ?thesis using start_unauthorized_aux [of w s r h] a Inr by simp
    next
      case True
      obtain ri ui where i: "onInit h (config r) (user s2) = (ri, ui)"
        by (cases "onInit h (config r) (user s2)")
      show ?thesis
      proof (cases ri)
        case (Some e)
        then have "hook_calls (snd (start h w s)) = hook_calls s @ [OnInit (config r)]"
          using a q Inr True i
          by (simp add: start_def start_try_def call_onInit_def hook_calls_handleError
                hook_calls_emit hook_calls_update)
        then show ?thesis using a Inr True by simp
      next
        case riNone: None
        obtain rr ur where rn: "onRender h (config r) ui = (rr, ur)"
          by (cases "onRender h (config r) ui")
        have "hook_calls (snd (start h w s))
                = hook_calls s @ [OnInit (config r), OnRender (config r)]"
          using a q Inr True i riNone rn
          by (cases rr)
             (simp_all add: start_def start_try_def call_onInit_def call_onRender_def
                hook_calls_handleError hook_calls_emit hook_calls_update hook_calls_log
                hook_calls_track emit_fields Let_def)
        then show ?thesis using a Inr True by simp
      qed
    qed
  qed
qed

lemma reload_hook_calls:
  "hook_calls (snd (reload h w s)) = hook_calls s \<or>
   (\<exists>r. fst (authorize w (clearCache w s)) = Inr r \<and> authorized r \<and>
        (hook_calls (snd (reload h w s)) = hook_calls s @ [OnConfigUpdate (config r)] \<or>
         hook_calls (snd (reload h w s)) = hook_calls s @ [OnDestroy] \<or>
         hook_calls (snd (reload h w s)) = hook_calls s @ [OnDestroy, OnRender (config r)]))"
proof -
  obtain res s2 where a: "authorize w (clearCache w s) = (res, s2)"
    by (cases "authorize w (clearCache w s)")
  have q: "hook_calls s2 = hook_calls s"
    using reload_fresh_quiet [of s w] a by (simp add: quiet_step_def)
  show ?thesis
  proof (cases res)
    case (Inl e)
    then have "hook_calls (snd (reload h w s)) = hook_calls s"
      using a q by (simp add: reload_def reload_try_def hook_calls_handleError)
    then show ?thesis by simp
  next
    case (Inr r)
    show ?thesis
    proof (cases "authorized r")
      case False
      then show ?thesis using reload_unauthorized_aux [of w s r h] a Inr by simp
    next
      case True
      show ?thesis
      proof (cases "onConfigUpdate h")
        case (Some f)
        obtain rf uf where f: "f (config r) (user s2) = (rf, uf)"
          by (cases "f (config r) (user s2)")
        have "hook_calls (snd (reload h w s)) = hook_calls s @ [OnConfigUpdate (config r)]"
          using a q Inr True Some f
          by (cases rf)
             (simp_all add: reload_def reload_try_def call_onConfigUpdate_def
                hook_calls_handleError hook_calls_emit hook_calls_update hook_calls_log Let_def)
        then show ?thesis using a Inr True by simp
      next
        case None
        obtain rd ud where d: "onDestroy h (user s2) = (rd, ud)"
          by (cases "onDestroy h (user s2)")
        show ?thesis
        proof (cases rd)
          case (Some e)
          then have "hook_calls (snd (reload h w s)) = hook_calls s @ [OnDestroy]"
            using a q Inr True None d
            by (simp add: reload_def reload_try_def call_onDestroy_def
                  hook_calls_handleError hook_calls_emit hook_calls_update Let_def)
          then show ?thesis using a Inr True by simp
        next
          case rdNone: None
          obtain rr ur where rn: "onRender h (config r) ud = (rr, ur)"
            by (cases "onRender h (config r) ud")
          have "hook_calls (snd (reload h w s))
                  = hook_calls s @ [OnDestroy, OnRender (config r)]"
            using a q Inr True None d rdNone rn
            by (cases rr)
               (simp_all add: reload_def reload_try_def call_onDestroy_def call_onRender_def
                  hook_calls_handleError hook_calls_emit hook_calls_update hook_calls_log
                  emit_fields Let_def)
          then show ?thesis using a Inr True by simp
        qed
      qed
    qed
  qed
qed

subsection \<open>The catch blocks\<close>

lemma start_catch:
  "fst (start_try h w s) = Inl e \<Longrightarrow>
   start h w s = handleError w ''Failed to start widget'' e (snd (start_try h w s))"
  by (cases "start_try h w s") (simp add: start_def)

lemma stop_catch:
  "fst (stop_try h w s) = Inl e \<Longrightarrow>
   stop h w s = handleError w ''Failed to stop widget'' e (snd (stop_try h w s))"
  by (cases "stop_try h w s") (simp add: stop_def)

lemma reload_catch:
  "fst (reload_try h w s) = Inl e \<Longrightarrow>
   reload h w s = handleError w ''Failed to reload widget'' e (snd (reload_try h w s))"
  by (cases "reload_try h w s") (simp add: reload_def)

lemma start_try_authorize_error:
  "fst (authorize w (waitForDOM s)) = Inl e \<Longrightarrow> fst (start_try h w s) = Inl e"
  by (cases "authorize w (waitForDOM s)") (simp add: start_try_def)

lemma reload_try_authorize_error:
  "fst (authorize w (clearCache w s)) = Inl e \<Longrightarrow> fst (reload_try h w s) = Inl e"
  by (cases "authorize w (clearCache w s)") (simp add: reload_try_def)

lemma start_try_onInit_error:
  assumes "authorize w (waitForDOM s) = (Inr r, s2)" and "authorized r"
    and "fst (onInit h (config r) (user s2)) = Some e"
  shows "fst (start_try h w s) = Inl e"
  using assms
  by (cases "onInit h (config r) (user s2)") (simp add: start_try_def call_onInit_def)

lemma start_try_onRender_error:
  assumes "authorize w (waitForDOM s) = (Inr r, s2)" and "authorized r"
    and "onInit h (config r) (user s2) = (None, u)"
    and "fst (onRender h (config r) u) = Some e"
  shows "fst (start_try h w s) = Inl e"
  using assms
  by (cases "onRender h (config r) u")
     (simp add: start_try_def call_onInit_def call_onRender_def emit_fields)

lemma stop_try_onDestroy_error:
  "fst (onDestroy h (user s)) = Some e \<Longrightarrow> fst (stop_try h w s) = Inl e"
  by (cases "onDestroy h (user s)") (simp add: stop_try_def call_onDestroy_def)

lemma reload_try_onConfigUpdate_error:
  assumes "authorize w (clearCache w s) = (Inr r, s2)" and "authorized r"
    and "onConfigUpdate h = Some f"
    and "fst (f (config r) (user s2)) = Some e"
  shows "fst (reload_try h w s) = Inl e"
  using assms
  by (cases "f (config r) (user s2)")
     (simp add: reload_try_def call_onConfigUpdate_def Let_def)

lemma reload_try_onDestroy_error:
  assumes "authorize w (clearCache w s) = (Inr r, s2)" and "authorized r"
    and "onConfigUpdate h = None"
    and "fst (onDestroy h (user s2)) = Some e"
  shows "fst (reload_try h w s) = Inl e"
  using assms
  by (cases "onDestroy h (user s2)")
     (simp add: reload_try_def call_onDestroy_def Let_def)

lemma reload_try_onRender_error:
  assumes "authorize w (clearCache w s) = (Inr r, s2)" and "authorized r"
    and "onConfigUpdate h = None"
    and "onDestroy h (user s2) = (None, u)"
    and "fst (onRender h (config r) u) = Some e"
  shows "fst (reload_try h w s) = Inl e"
  using assms
  by (cases "onRender h (config r) u")
     (simp add: reload_try_def call_onDestroy_def call_onRender_def emit_fields Let_def)

text \<open>An error that reaches a \<open>catch\<close> and that \<open>handleError\<close> can report: the method
  returns normally, and its final state is the state at the throw with the report
  appended to the trace.\<close>

lemma start_error_reported:
  assumes "fst (start_try h w s) = Inl e" and "reportable w e"
  shows "fst (start h w s) = Inr () \<and>
         snd (start h w s)
           = (snd (start_try h w s))\<lparr>trace := trace (snd (start_try h w s))
                @ error_report w ''Failed to start widget'' e\<rparr>"
  by (simp add: start_catch [OF assms(1)] handleError_reportable [OF assms(2)] handleError_snd)

lemma stop_error_reported:
  assumes "fst (stop_try h w s) = Inl e" and "reportable w e"
  shows "fst (stop h w s) = Inr () \<and>
         snd (stop h w s)
           = (snd (stop_try h w s))\<lparr>trace := trace (snd (stop_try h w s))
                @ error_report w ''Failed to stop widget'' e\<rparr>"
  by (simp add: stop_catch [OF assms(1)] handleError_reportable [OF assms(2)] handleError_snd)

lemma reload_error_reported:
  assumes "fst (reload_try h w s) = Inl e" and "reportable w e"
  shows "fst (reload h w s) = Inr () \<and>
         snd (reload h w s)
           = (snd (reload_try h w s))\<lparr>trace := trace (snd (reload_try h w s))
                @ error_report w ''Failed to reload widget'' e\<rparr>"
  by (simp add: reload_catch [OF assms(1)] handleError_reportable [OF assms(2)] handleError_snd)

text \<open>An error that \<open>handleError\<close> cannot render, with analytics enabled: the method
  rejects with what the rendering throws, after the console line and with no telemetry
  event.\<close>

lemma stop_error_unrenderable:
  assumes "fst (onDestroy h (user s)) = Some e" and "analytics (options w)"
    and "error_text e = Inl x"
  shows "fst (stop h w s) = Inl x \<and>
         new_events s (snd (stop h w s))
           = [OnDestroy, ConsoleError (''['' @ widgetName w @ ''] Failed to stop widget:'') e]"
proof -
  have "fst (stop h w s) = Inl x"
    using assms by (simp add: stop_caught handleError_throws)
  moreover have "error_report w ''Failed to stop widget'' e
                   = [ConsoleError (''['' @ widgetName w @ ''] Failed to stop widget:'') e]"
    using assms(2,3) by (simp add: error_report_def)
  ultimately show ?thesis using assms(1) by (simp add: new_events_def stop_trace)
qed

subsection \<open>Requests issued by the loop\<close>

lemma try_attempt_requests: "requests (snd (try_attempt w a s)) = Suc (requests s)"
  by (simp add: try_attempt_def fetch_def log_def emit_def saveToCache_def Let_def
        split: fetch_outcome.splits body.splits)

lemma attempt_loop_requests_mono: "requests s \<le> requests (snd (attempt_loop w a le s))"
proof (induction "nat (retryAttempts (options w) + 1 - a)" arbitrary: a le s)
  case 0
  then have "\<not> a \<le> retryAttempts (options w)" by simp
  then show ?case by (simp add: attempt_loop.simps)
next
  case (Suc k)
  let ?N = "retryAttempts (options w)"
  have le: "a \<le> ?N" using Suc.hyps(2) by simp
  obtain r s2 where ta: "try_attempt w a s = (r, s2)" by (cases "try_attempt w a s")
  have r2: "requests s2 = Suc (requests s)" using try_attempt_requests [of w a s] ta by simp
  show ?case
  proof (cases r)
    case (Inr data)
    then show ?thesis using le ta r2 by (subst attempt_loop.simps) simp
  next
    case (Inl e)
    define s4 where "s4 = (if a < ?N
        then sleep (retryDelay (options w))
               (log w (''Authorization attempt '' @ int_text a @ '' failed:'') s2)
        else log w (''Authorization attempt '' @ int_text a @ '' failed:'') s2)"
    have r4: "requests s4 = Suc (requests s)"
      using r2 by (simp add: s4_def log_def sleep_def emit_def)
    have unfold: "attempt_loop w a le s = attempt_loop w (a + 1) (Some e) s4"
      using le ta Inl by (subst attempt_loop.simps) (simp add: s4_def Let_def)
    have k: "k = nat (?N + 1 - (a + 1))" using Suc.hyps(2) by simp
    have "requests s4 \<le> requests (snd (attempt_loop w (a + 1) (Some e) s4))"
      using k by (rule Suc.hyps(1))
    then show ?thesis using r4 by (simp add: unfold)
  qed
qed

lemma attempt_loop_issues_request:
  assumes "a \<le> retryAttempts (options w)"
  shows "requests s < requests (snd (attempt_loop w a le s))"
proof -
  obtain r s2 where ta: "try_attempt w a s = (r, s2)" by (cases "try_attempt w a s")
  have r2: "requests s2 = Suc (requests s)" using try_attempt_requests [of w a s] ta by simp
  show ?thesis
  proof (cases r)
    case (Inr data)
    then show ?thesis using assms ta r2 by (subst attempt_loop.simps) simp
  next
    case (Inl e)
    define s4 where "s4 = (if a < retryAttempts (options w)
        then sleep (retryDelay (options w))
               (log w (''Authorization attempt '' @ int_text a @ '' failed:'') s2)
        else log w (''Authorization attempt '' @ int_text a @ '' failed:'') s2)"
    have r4: "requests s4 = Suc (requests s)"
      using r2 by (simp add: s4_def log_def sleep_def emit_def)
    have unfold: "attempt_loop w a le s = attempt_loop w (a + 1) (Some e) s4"
      using assms ta Inl by (subst attempt_loop.simps) (simp add: s4_def Let_def)
    have "requests s4 \<le> requests (snd (attempt_loop w (a + 1) (Some e) s4))"
      by (rule attempt_loop_requests_mono)
    then show ?thesis using r4 by (simp add: unfold)
  qed
qed

subsection \<open>The cache path\<close>

lemma getFromCache_fresh:
  assumes "localStorage s (getCacheKey w) = Some (Snapshot data ts)"
    and "of_int (now s - ts) / 1000 \<le> (of_int (cacheDuration (options w)) :: rat)"
  shows "getFromCache w s = (Some data, emit (CacheGet (getCacheKey w)) s)"
  using assms by (simp add: getFromCache_def Let_def)

lemma getFromCache_expired:
  assumes "localStorage s (getCacheKey w) = Some (Snapshot data ts)"
    and "of_int (now s - ts) / 1000 > (of_int (cacheDuration (options w)) :: rat)"
  shows "getFromCache w s = (None, clearCache w (emit (CacheGet (getCacheKey w)) s))"
  using assms by (simp add: getFromCache_def Let_def)

lemma authorize_cache_fresh:
  assumes "cache (options w)" and "preview s = None"
    and "localStorage s (getCacheKey w) = Some (Snapshot data ts)"
    and "of_int (now s - ts) / 1000 \<le> (of_int (cacheDuration (options w)) :: rat)"
  shows "authorize w s
           = (Inr data, log w ''Using cached authorization'' (emit (CacheGet (getCacheKey w)) s))"
  using assms(1,2) getFromCache_fresh [OF assms(3,4)] by (simp add: authorize_def)

lemma authorize_cache_expired:
  assumes "cache (options w)" and "preview s = None"
    and "localStorage s (getCacheKey w) = Some (Snapshot data ts)"
    and "of_int (now s - ts) / 1000 > (of_int (cacheDuration (options w)) :: rat)"
  shows "authorize w s
           = attempt_loop w 1 None (clearCache w (emit (CacheGet (getCacheKey w)) s))"
  using assms(1,2) getFromCache_expired [OF assms(3,4)] by (simp add: authorize_def)

lemma cached_path_observations:
  "requests (log w msg (emit (CacheGet k) s)) = requests s \<and>
   localStorage (log w msg (emit (CacheGet k) s)) = localStorage s \<and>
   filter is_fetch (new_events s (log w msg (emit (CacheGet k) s))) = []"
  by (simp add: log_def emit_def new_events_def)

lemma clearCache_removes:
  "localStorage (clearCache w s) (getCacheKey w) = None \<and>
   requests (clearCache w (emit e s)) = requests s"
  by (simp add: clearCache_def emit_def Let_def)

lemma cached_state_facts:
  "cache (options demo_widget) \<and> preview cached_state = None \<and>
   localStorage cached_state (getCacheKey demo_widget) = Some (Snapshot demo_response 4000000) \<and>
   (of_int (now cached_state - 4000000) / 1000 :: rat)
     \<le> of_int (cacheDuration (options demo_widget)) \<and> requests cached_state = 0"
  by (simp add: cached_state_def demo_state_def demo_widget_def default_options_def)

lemma stale_state_facts:
  "preview stale_state = None \<and>
   localStorage stale_state (getCacheKey demo_widget) = Some (Snapshot demo_response 1000000) \<and>
   (of_int (now stale_state - 1000000) / 1000 :: rat)
     > of_int (cacheDuration (options demo_widget)) \<and>
   1 \<le> retryAttempts (options demo_widget) \<and> requests stale_state = 0"
  by (simp add: stale_state_def demo_state_def demo_widget_def default_options_def)

subsection \<open>From \<open>authorize\<close> to the loop\<close>

lemma getFromCache_frame:
  "requests (snd (getFromCache w s)) = requests s \<and>
   net (snd (getFromCache w s)) = net s \<and>
   (\<exists>evs. trace (snd (getFromCache w s)) = trace s @ evs \<and>
          filter (\<lambda>e. is_fetch e \<or> is_sleep e) evs = [])"
  by (simp add: getFromCache_def clearCache_def emit_def Let_def
        split: option.splits stored.splits)

lemma authorize_without_entry:
  assumes "preview s = None" and "cache (options w) \<longrightarrow> fst (getFromCache w s) = None"
  shows "authorize w s
           = attempt_loop w 1 None (if cache (options w) then snd (getFromCache w s) else s)"
proof (cases "cache (options w)")
  case False
  then show ?thesis using assms(1) by (simp add: authorize_def)
next
  case True
  with assms(2) have "fst (getFromCache w s) = None" by simp
  then have "getFromCache w s = (None, snd (getFromCache w s))"
    by (cases "getFromCache w s") simp
  then have "(case getFromCache w s of
               (Some cached, s1) \<Rightarrow> (Inr cached, log w ''Using cached authorization'' s1)
             | (None, s1) \<Rightarrow> attempt_loop w 1 None s1)
             = attempt_loop w 1 None (snd (getFromCache w s))"
    by (cases "getFromCache w s") simp
  then show ?thesis using assms(1) True by (simp add: authorize_def)
qed


lemma authorize_no_attempts:
  assumes "preview s = None" and "cache (options w) \<longrightarrow> fst (getFromCache w s) = None"
    and "retryAttempts (options w) < 1"
  shows "fst (authorize w s) = Inl (Error ''Authorization failed'') \<and>
         requests (snd (authorize w s)) = requests s"
proof -
  have "\<not> 1 \<le> retryAttempts (options w)" using assms(3) by simp
  then have "attempt_loop w 1 None s' = (Inl (Error ''Authorization failed''), s')" for s' :: "'a state"
    by (subst attempt_loop.simps) simp
  then show ?thesis
    using authorize_without_entry [OF assms(1,2)] getFromCache_frame [of w s] by simp
qed


section \<open>The claims\<close>



text \<open>
  C2. With caching enabled, no preview override, and a snapshot stored under the key of
  the instance: if the age of the snapshot, \<open>(now - timestamp) / 1000\<close> seconds, is at
  most \<open>cacheDuration\<close>, \<open>authorize\<close> returns the stored payload, issues no request and
  leaves the store alone; if the age exceeds \<open>cacheDuration\<close>, \<open>authorize\<close> removes the
  entry and continues as the network loop does from its first attempt on the store
  without the entry (a loop that issues at least one request when \<open>retryAttempts\<close> is at
  least 1).
\<close>

theorem authorize_cached_entry:
  assumes "cache (options w)" and "preview s = None"
    and "localStorage s (getCacheKey w) = Some (Snapshot data ts)"
  shows "(of_int (now s - ts) / 1000 \<le> (of_int (cacheDuration (options w)) :: rat) \<longrightarrow>
            fst (authorize w s) = Inr data \<and>
            requests (snd (authorize w s)) = requests s \<and>
            filter is_fetch (new_events s (snd (authorize w s))) = [] \<and>
            localStorage (snd (authorize w s)) = localStorage s) \<and>
         (of_int (now s - ts) / 1000 > (of_int (cacheDuration (options w)) :: rat) \<longrightarrow>
            authorize w s
              = attempt_loop w 1 None (clearCache w (emit (CacheGet (getCacheKey w)) s)) \<and>
            localStorage (clearCache w (emit (CacheGet (getCacheKey w)) s)) (getCacheKey w) = None \<and>
            (1 \<le> retryAttempts (options w) \<longrightarrow> requests s < requests (snd (authorize w s))))"
proof (intro conjI impI)
  assume fresh: "of_int (now s - ts) / 1000 \<le> (of_int (cacheDuration (options w)) :: rat)"
  note eq = authorize_cache_fresh [OF assms fresh]
  note obs = cached_path_observations [of w "''Using cached authorization''" "getCacheKey w" s]
  show "fst (authorize w s) = Inr data" by (simp add: eq)
  show "requests (snd (authorize w s)) = requests s" using obs by (simp add: eq)
  show "filter is_fetch (new_events s (snd (authorize w s))) = []" using obs by (simp add: eq)
  show "localStorage (snd (authorize w s)) = localStorage s" using obs by (simp add: eq)
next
  assume old: "of_int (cacheDuration (options w)) < (of_int (now s - ts) / 1000 :: rat)"
  show eq: "authorize w s
              = attempt_loop w 1 None (clearCache w (emit (CacheGet (getCacheKey w)) s))"
    using assms old by (rule authorize_cache_expired)
  show "localStorage (clearCache w (emit (CacheGet (getCacheKey w)) s)) (getCacheKey w) = None"
    by (simp add: clearCache_removes)
  show "requests s < requests (snd (authorize w s))" if "1 \<le> retryAttempts (options w)"
    using attempt_loop_issues_request
            [OF that, of "clearCache w (emit (CacheGet (getCacheKey w)) s)" None]
    by (simp add: eq clearCache_removes)
qed

theorem authorize_cached_entry_witness:
  "cache (options demo_widget) \<and> preview cached_state = None \<and>
   localStorage cached_state (getCacheKey demo_widget) = Some (Snapshot demo_response 4000000) \<and>
   (of_int (now cached_state - 4000000) / 1000 :: rat)
     \<le> of_int (cacheDuration (options demo_widget)) \<and>
   fst (authorize demo_widget cached_state) = Inr demo_response \<and>
   requests (snd (authorize demo_widget cached_state)) = 0 \<and>
   preview stale_state = None \<and>
   localStorage stale_state (getCacheKey demo_widget) = Some (Snapshot demo_response 1000000) \<and>
   (of_int (now stale_state - 1000000) / 1000 :: rat)
     > of_int (cacheDuration (options demo_widget)) \<and>
   1 \<le> retryAttempts (options demo_widget) \<and>
   0 < requests (snd (authorize demo_widget stale_state))"
proof -
  have c: "cache (options demo_widget)" "preview cached_state = None"
    "localStorage cached_state (getCacheKey demo_widget) = Some (Snapshot demo_response 4000000)"
    using cached_state_facts by simp_all
  have st: "preview stale_state = None"
    "localStorage stale_state (getCacheKey demo_widget) = Some (Snapshot demo_response 1000000)"
    using stale_state_facts by simp_all
  have f1: "fst (authorize demo_widget cached_state) = Inr demo_response \<and>
            requests (snd (authorize demo_widget cached_state)) = requests cached_state"
    using authorize_cached_entry [OF c] cached_state_facts by blast
  have f2: "requests stale_state < requests (snd (authorize demo_widget stale_state))"
    using authorize_cached_entry [OF c(1) st] stale_state_facts by blast
  from f1 f2 cached_state_facts stale_state_facts show ?thesis by simp
qed

text \<open>
  C3. Whenever the preview slot is populated, \<open>authorize\<close> returns (it does not throw) a
  response with \<open>authorized = true\<close> whose config is the preview object itself; the
  store and the request counter are as before, and the call performs no cache read, no
  cache write and no network request.
\<close>

theorem authorize_preview:
  assumes "preview s = Some p"
  shows "fst (authorize w s) = Inr (preview_response w s p) \<and>
         authorized (preview_response w s p) \<and> config (preview_response w s p) = p \<and>
         localStorage (snd (authorize w s)) = localStorage s \<and>
         requests (snd (authorize w s)) = requests s \<and>
         filter (\<lambda>e. is_cache_access e \<or> is_fetch e) (new_events s (snd (authorize w s))) = []"
proof (intro conjI)
  show "fst (authorize w s) = Inr (preview_response w s p)"
    using assms by (simp add: authorize_preview_eq)
  show "authorized (preview_response w s p)" "config (preview_response w s p) = p"
    by (simp_all add: preview_response_fields)
  show "localStorage (snd (authorize w s)) = localStorage s"
       "requests (snd (authorize w s)) = requests s"
    using authorize_preview_store [OF assms] by simp_all
  show "filter (\<lambda>e. is_cache_access e \<or> is_fetch e) (new_events s (snd (authorize w s))) = []"
    using assms by (rule authorize_preview_events)
qed

theorem authorize_preview_witness:
  "preview (demo_state\<lparr>preview := Some [(''title'', ''Draft'')]\<rparr>) = Some [(''title'', ''Draft'')] \<and>
   fst (authorize demo_widget (demo_state\<lparr>preview := Some [(''title'', ''Draft'')]\<rparr>))
     = Inr (preview_response demo_widget (demo_state\<lparr>preview := Some [(''title'', ''Draft'')]\<rparr>)
              [(''title'', ''Draft'')]) \<and>
   requests (snd (authorize demo_widget (demo_state\<lparr>preview := Some [(''title'', ''Draft'')]\<rparr>))) = 0"
proof -
  have h: "preview (demo_state\<lparr>preview := Some [(''title'', ''Draft'')]\<rparr>)
             = Some [(''title'', ''Draft'')]"
    by simp
  have r: "requests demo_state = 0" by (simp add: demo_state_def)
  from authorize_preview [OF h, of demo_widget] h r show ?thesis by simp
qed

text \<open>
  C4, as the code has it. \<open>stop\<close> has no guard on the state of the instance: each call
  invokes \<open>onDestroy\<close>. Called twice in succession with the hook not throwing, neither
  call throws into the caller, and \<open>onDestroy\<close> is invoked exactly twice, once by each
  call: the second \<open>stop\<close> invokes the hook again.
\<close>

theorem stop_twice:
  assumes "fst (onDestroy h (user s)) = None"
    and "fst (onDestroy h (user (snd (stop h w s)))) = None"
  shows "fst (stop h w s) = Inr () \<and>
         fst (stop h w (snd (stop h w s))) = Inr () \<and>
         count_list (trace (snd (stop h w s))) OnDestroy = count_list (trace s) OnDestroy + 1 \<and>
         count_list (trace (snd (stop h w (snd (stop h w s))))) OnDestroy
           = count_list (trace s) OnDestroy + 2"
proof -
  have r1: "fst (stop h w s) = Inr ()" using assms(1) by (rule stop_returns_normal)
  have r2: "fst (stop h w (snd (stop h w s))) = Inr ()"
    using assms(2) by (rule stop_returns_normal)
  show ?thesis using r1 r2 by (simp add: stop_destroy_count)
qed

theorem stop_twice_witness:
  "fst (onDestroy counting_hooks (user demo_state)) = None \<and>
   fst (onDestroy counting_hooks (user (snd (stop counting_hooks demo_widget demo_state)))) = None \<and>
   fst (stop counting_hooks demo_widget demo_state) = Inr () \<and>
   fst (stop counting_hooks demo_widget (snd (stop counting_hooks demo_widget demo_state))) = Inr () \<and>
   count_list (trace (snd (stop counting_hooks demo_widget
                       (snd (stop counting_hooks demo_widget demo_state))))) OnDestroy = 2"
proof -
  have h1: "fst (onDestroy counting_hooks (user demo_state)) = None"
    by (simp add: counting_hooks_def)
  have h2: "fst (onDestroy counting_hooks
                  (user (snd (stop counting_hooks demo_widget demo_state)))) = None"
    by (simp add: counting_hooks_def)
  have c0: "count_list (trace demo_state) OnDestroy = 0"
    by (simp add: demo_state_def)
  from stop_twice [OF h1 h2] h1 h2 c0 show ?thesis by simp
qed

text \<open>
  C4 as stated asks for one \<open>onDestroy\<close> call across two calls of \<open>stop\<close>. On the
  example instance, with hooks that do not throw, both calls return normally and the
  trace holds two \<open>onDestroy\<close> calls.
\<close>

theorem stop_twice_counterexample:
  "fst (stop counting_hooks demo_widget demo_state) = Inr () \<and>
   fst (stop counting_hooks demo_widget (snd (stop counting_hooks demo_widget demo_state))) = Inr () \<and>
   count_list (trace (snd (stop counting_hooks demo_widget
                       (snd (stop counting_hooks demo_widget demo_state))))) OnDestroy = 2"
proof -
  have h: "fst (onDestroy counting_hooks u) = None" for u
    by (simp add: counting_hooks_def)
  have c0: "count_list (trace demo_state) OnDestroy = 0"
    by (simp add: demo_state_def)
  show ?thesis
    using c0 by (simp add: stop_returns_normal [OF h] stop_destroy_count)
qed




text \<open>
  C6, as the code has it. The key is a function of the pair alone: two instances with the
  same website id and app id derive the same key, whatever their other fields. The two
  ids are joined by an underscore, so the derivation is injective on the pairs whose
  website id contains no underscore; without that, distinct pairs can share a key.
\<close>

theorem getCacheKey_injective_without_underscore:
  "(websiteId w1 = websiteId w2 \<and> appId w1 = appId w2 \<longrightarrow> getCacheKey w1 = getCacheKey w2) \<and>
   (CHR ''_'' \<notin> set (websiteId w1) \<and> CHR ''_'' \<notin> set (websiteId w2) \<and>
      getCacheKey w1 = getCacheKey w2 \<longrightarrow> websiteId w1 = websiteId w2 \<and> appId w1 = appId w2)"
proof (intro conjI impI)
  assume "websiteId w1 = websiteId w2 \<and> appId w1 = appId w2"
  then show "getCacheKey w1 = getCacheKey w2" by (simp add: getCacheKey_def)
next
  assume a: "CHR ''_'' \<notin> set (websiteId w1) \<and> CHR ''_'' \<notin> set (websiteId w2) \<and>
      getCacheKey w1 = getCacheKey w2"
  from a have n1: "CHR ''_'' \<notin> set (websiteId w1)" by simp
  from a have n2: "CHR ''_'' \<notin> set (websiteId w2)" by simp
  from a have "getCacheKey w1 = getCacheKey w2" by simp
  then have eq: "websiteId w1 @ CHR ''_'' # appId w1 = websiteId w2 @ CHR ''_'' # appId w2"
    by (simp only: getCacheKey_eq_iff)
  have both: "websiteId w1 = websiteId w2 \<and> appId w1 = appId w2"
    using n1 n2 eq by (rule split_at_separator)
  from both show "websiteId w1 = websiteId w2" by (rule conjunct1)
  from both show "appId w1 = appId w2" by (rule conjunct2)
qed

theorem getCacheKey_injective_without_underscore_witness:
  "CHR ''_'' \<notin> set (websiteId demo_widget) \<and>
   CHR ''_'' \<notin> set (websiteId (demo_widget\<lparr>widgetName := ''other''\<rparr>)) \<and>
   getCacheKey demo_widget = getCacheKey (demo_widget\<lparr>widgetName := ''other''\<rparr>) \<and>
   websiteId demo_widget = websiteId (demo_widget\<lparr>widgetName := ''other''\<rparr>) \<and>
   appId demo_widget = appId (demo_widget\<lparr>widgetName := ''other''\<rparr>)"
proof -
  have h1: "CHR ''_'' \<notin> set (websiteId demo_widget)"
    by (simp add: demo_widget_def)
  have h2: "CHR ''_'' \<notin> set (websiteId (demo_widget\<lparr>widgetName := ''other''\<rparr>))"
    by (simp add: demo_widget_def)
  have h3: "getCacheKey demo_widget = getCacheKey (demo_widget\<lparr>widgetName := ''other''\<rparr>)"
    by (simp add: getCacheKey_def)
  from getCacheKey_injective_without_underscore
         [of demo_widget "demo_widget\<lparr>widgetName := ''other''\<rparr>"] h1 h2 h3
  show ?thesis by blast
qed

text \<open>
  C6 as stated asks for distinct keys for distinct pairs of non-empty ids. The pairs
  \<open>(a_b, c)\<close> and \<open>(a, b_c)\<close> are distinct and derive the same key.
\<close>

theorem getCacheKey_collision:
  "(''a_b'', ''c'') \<noteq> (''a'', ''b_c'') \<and>
   getCacheKey (demo_widget\<lparr>websiteId := ''a_b'', appId := ''c''\<rparr>)
     = getCacheKey (demo_widget\<lparr>websiteId := ''a'', appId := ''b_c''\<rparr>)"
  by (simp add: getCacheKey_def demo_widget_def)

text \<open>
  C7. Whenever \<open>authorize\<close> returns a response with \<open>authorized = false\<close> during
  \<open>start\<close>, \<open>start\<close> returns without throwing, invokes no hook, and leaves the subclass
  state, the initialized flag (so a flag that was false stays false) and the stored
  config as they were. Moreover the hooks \<open>start\<close> invokes are none, or \<open>onInit\<close>, or
  \<open>onInit\<close> then \<open>onRender\<close>, each with the config of a response that \<open>authorize\<close>
  returned with \<open>authorized = true\<close>; and \<open>reload\<close>, the only other caller of
  \<open>onRender\<close>, passes it the config of an authorized response too.
\<close>

theorem start_unauthorized_halts:
  "(\<forall>r. fst (authorize w (waitForDOM s)) = Inr r \<and> \<not> authorized r \<longrightarrow>
        fst (start h w s) = Inr () \<and>
        hook_calls (snd (start h w s)) = hook_calls s \<and>
        user (snd (start h w s)) = user s \<and>
        isInitialized (snd (start h w s)) = isInitialized s \<and>
        this_config (snd (start h w s)) = this_config s) \<and>
   (hook_calls (snd (start h w s)) = hook_calls s \<or>
    (\<exists>r. fst (authorize w (waitForDOM s)) = Inr r \<and> authorized r \<and>
         (hook_calls (snd (start h w s)) = hook_calls s @ [OnInit (config r)] \<or>
          hook_calls (snd (start h w s))
            = hook_calls s @ [OnInit (config r), OnRender (config r)]))) \<and>
   (hook_calls (snd (reload h w s)) = hook_calls s \<or>
    (\<exists>r. fst (authorize w (clearCache w s)) = Inr r \<and> authorized r \<and>
         (hook_calls (snd (reload h w s)) = hook_calls s @ [OnConfigUpdate (config r)] \<or>
          hook_calls (snd (reload h w s)) = hook_calls s @ [OnDestroy] \<or>
          hook_calls (snd (reload h w s))
            = hook_calls s @ [OnDestroy, OnRender (config r)])))"
proof (intro conjI allI impI)
  fix r
  assume a: "fst (authorize w (waitForDOM s)) = Inr r \<and> \<not> authorized r"
  then have a1: "fst (authorize w (waitForDOM s)) = Inr r" and a2: "\<not> authorized r"
    by simp_all
  note aux = start_unauthorized_aux [OF a1 a2, of h]
  from aux show "fst (start h w s) = Inr ()" by simp
  from aux show "hook_calls (snd (start h w s)) = hook_calls s" by simp
  from aux show "user (snd (start h w s)) = user s" by simp
  from aux show "isInitialized (snd (start h w s)) = isInitialized s" by simp
  from aux show "this_config (snd (start h w s)) = this_config s" by simp
next
  show "hook_calls (snd (start h w s)) = hook_calls s \<or>
    (\<exists>r. fst (authorize w (waitForDOM s)) = Inr r \<and> authorized r \<and>
         (hook_calls (snd (start h w s)) = hook_calls s @ [OnInit (config r)] \<or>
          hook_calls (snd (start h w s))
            = hook_calls s @ [OnInit (config r), OnRender (config r)]))"
    by (rule start_hook_calls)
next
  show "hook_calls (snd (reload h w s)) = hook_calls s \<or>
    (\<exists>r. fst (authorize w (clearCache w s)) = Inr r \<and> authorized r \<and>
         (hook_calls (snd (reload h w s)) = hook_calls s @ [OnConfigUpdate (config r)] \<or>
          hook_calls (snd (reload h w s)) = hook_calls s @ [OnDestroy] \<or>
          hook_calls (snd (reload h w s))
            = hook_calls s @ [OnDestroy, OnRender (config r)]))"
    by (rule reload_hook_calls)
qed

theorem start_unauthorized_halts_witness:
  "fst (authorize demo_widget (waitForDOM refused_state)) = Inr refusal \<and>
   \<not> authorized refusal \<and>
   fst (start counting_hooks demo_widget refused_state) = Inr () \<and>
   hook_calls (snd (start counting_hooks demo_widget refused_state)) = [] \<and>
   user (snd (start counting_hooks demo_widget refused_state)) = 0 \<and>
   this_config (snd (start counting_hooks demo_widget refused_state)) = [(''title'', ''Hello'')]"
proof -
  have hc: "hook_calls refused_state = []"
    by (simp add: hook_calls_def refused_state_def demo_state_def)
  have cf: "this_config refused_state = [(''title'', ''Hello'')]"
    by (simp add: refused_state_def)
  have us: "user refused_state = 0"
    by (simp add: refused_state_def demo_state_def)
  from start_unauthorized_halts [of demo_widget refused_state counting_hooks]
  have "fst (authorize demo_widget (waitForDOM refused_state)) = Inr refusal \<and>
          \<not> authorized refusal \<longrightarrow>
        fst (start counting_hooks demo_widget refused_state) = Inr () \<and>
        hook_calls (snd (start counting_hooks demo_widget refused_state)) = hook_calls refused_state \<and>
        user (snd (start counting_hooks demo_widget refused_state)) = user refused_state \<and>
        isInitialized (snd (start counting_hooks demo_widget refused_state))
          = isInitialized refused_state \<and>
        this_config (snd (start counting_hooks demo_widget refused_state))
          = this_config refused_state"
    by blast
  with refused_start refusal_unauthorized hc cf us show ?thesis by simp
qed

text \<open>
  C8. Whenever the fresh authorization of \<open>reload\<close> (the one made after the cache entry
  is cleared) returns a response with \<open>authorized = false\<close>, \<open>reload\<close> returns without
  throwing, invokes no hook at all (in particular none of \<open>onConfigUpdate\<close>,
  \<open>onDestroy\<close>, \<open>onRender\<close>), and leaves the subclass state and the stored config as
  they were.
\<close>

theorem reload_unauthorized:
  assumes "fst (authorize w (clearCache w s)) = Inr r" and "\<not> authorized r"
  shows "fst (reload h w s) = Inr () \<and>
         hook_calls (snd (reload h w s)) = hook_calls s \<and>
         user (snd (reload h w s)) = user s \<and>
         this_config (snd (reload h w s)) = this_config s"
  using reload_unauthorized_aux [OF assms, of h] by simp

theorem reload_unauthorized_witness:
  "fst (authorize demo_widget (clearCache demo_widget refused_state)) = Inr refusal \<and>
   \<not> authorized refusal \<and>
   fst (reload counting_hooks demo_widget refused_state) = Inr () \<and>
   hook_calls (snd (reload counting_hooks demo_widget refused_state)) = [] \<and>
   this_config (snd (reload counting_hooks demo_widget refused_state)) = [(''title'', ''Hello'')]"
proof -
  have hc: "hook_calls refused_state = []"
    by (simp add: hook_calls_def refused_state_def demo_state_def)
  have cf: "this_config refused_state = [(''title'', ''Hello'')]"
    by (simp add: refused_state_def)
  from reload_unauthorized [OF refused_fresh refusal_unauthorized, of counting_hooks]
    refused_fresh refusal_unauthorized hc cf
  show ?thesis by simp
qed

text \<open>
  C9 asks that no error thrown inside \<open>start\<close>, \<open>stop\<close> or \<open>reload\<close> reaches the caller,
  and that each is reported, with a telemetry event when analytics is enabled. The
  \<open>catch\<close> blocks do that for every error \<open>handleError\<close> can render (lemmas
  \<open>start_error_reported\<close>, \<open>stop_error_reported\<close>, \<open>reload_error_reported\<close>). But
  \<open>handleError\<close> renders the error outside any \<open>try\<close>: on an instance with analytics
  enabled whose hooks throw \<open>Object.create(null)\<close>, each of the three methods rejects
  with the \<open>TypeError\<close> of the rendering, and \<open>stop\<close> emits the console line and no
  telemetry event.
\<close>

theorem lifecycle_rejects_unrenderable_error:
  "fst (start bare_throwing_hooks analytics_widget preview_state)
     = Inl (Error ''Cannot convert object to primitive value'') \<and>
   fst (stop bare_throwing_hooks analytics_widget preview_state)
     = Inl (Error ''Cannot convert object to primitive value'') \<and>
   fst (reload bare_throwing_hooks analytics_widget preview_state)
     = Inl (Error ''Cannot convert object to primitive value'') \<and>
   new_events preview_state (snd (stop bare_throwing_hooks analytics_widget preview_state))
     = [OnDestroy, ConsoleError ''[my-widget] Failed to stop widget:'' bare_object]"
proof -
  have an: "analytics (options analytics_widget)"
    by (simp add: analytics_widget_def)
  have tx: "error_text bare_object = Inl (Error ''Cannot convert object to primitive value'')"
    by (simp add: bare_object_def)
  have nm: "widgetName analytics_widget = ''my-widget''"
    by (simp add: analytics_widget_def demo_widget_def)
  have d: "fst (onDestroy bare_throwing_hooks u) = Some bare_object" for u
    by (simp add: bare_throwing_hooks_def counting_hooks_def)
  have i: "fst (onInit bare_throwing_hooks c u) = Some bare_object" for c u
    by (simp add: bare_throwing_hooks_def counting_hooks_def)
  have cu: "onConfigUpdate bare_throwing_hooks = None"
    by (simp add: bare_throwing_hooks_def counting_hooks_def)
  have stop: "fst (stop bare_throwing_hooks analytics_widget preview_state)
                = Inl (Error ''Cannot convert object to primitive value'') \<and>
              new_events preview_state (snd (stop bare_throwing_hooks analytics_widget preview_state))
                = [OnDestroy, ConsoleError ''[my-widget] Failed to stop widget:'' bare_object]"
    using stop_error_unrenderable [OF d an tx, of preview_state] by (simp add: nm)
  have pv: "preview (waitForDOM preview_state) = Some [(''title'', ''Draft'')]"
           "preview (clearCache analytics_widget preview_state) = Some [(''title'', ''Draft'')]"
    by (simp_all add: waitForDOM_def clearCache_def emit_def preview_state_def demo_state_def Let_def)
  obtain r1 s1 where a1: "authorize analytics_widget (waitForDOM preview_state) = (Inr r1, s1)"
      and z1: "authorized r1"
    using authorize_preview_eq [OF pv(1), of analytics_widget] preview_response_fields by blast
  obtain r2 s2 where a2: "authorize analytics_widget (clearCache analytics_widget preview_state)
                            = (Inr r2, s2)"
      and z2: "authorized r2"
    using authorize_preview_eq [OF pv(2), of analytics_widget] preview_response_fields by blast
  have st: "fst (start_try bare_throwing_hooks analytics_widget preview_state) = Inl bare_object"
    using a1 z1 i by (rule start_try_onInit_error)
  have rt: "fst (reload_try bare_throwing_hooks analytics_widget preview_state) = Inl bare_object"
    using a2 z2 cu d by (rule reload_try_onDestroy_error)
  have start: "fst (start bare_throwing_hooks analytics_widget preview_state)
                 = Inl (Error ''Cannot convert object to primitive value'')"
    by (simp add: start_catch [OF st] handleError_throws [OF an tx])
  have reload: "fst (reload bare_throwing_hooks analytics_widget preview_state)
                 = Inl (Error ''Cannot convert object to primitive value'')"
    by (simp add: reload_catch [OF rt] handleError_throws [OF an tx])
  from start stop reload show ?thesis by simp
qed

text \<open>
  C10. Whenever the fresh authorization of \<open>reload\<close> returns a response, \<open>authData\<close>
  holds that response afterwards, whether or not it is authorized and whatever the hooks
  do: the field is assigned before the flag is tested. After a reload whose fresh
  response is unauthorized, \<open>authData\<close> is the new response while \<open>config\<close> is still the
  previous config, so the two fields can disagree (as they do in the example).
\<close>

theorem reload_overwrites_authData:
  "(\<forall>r. fst (authorize w (clearCache w s)) = Inr r \<longrightarrow>
         this_authData (snd (reload h w s)) = Some r) \<and>
   (\<forall>r. fst (authorize w (clearCache w s)) = Inr r \<and> \<not> authorized r \<longrightarrow>
         this_authData (snd (reload h w s)) = Some r \<and>
         this_config (snd (reload h w s)) = this_config s)"
  using reload_authData [of w s _ h] reload_unauthorized_aux [of w s _ h] by blast

theorem reload_overwrites_authData_witness:
  "fst (authorize demo_widget (clearCache demo_widget refused_state)) = Inr refusal \<and>
   \<not> authorized refusal \<and>
   this_authData (snd (reload counting_hooks demo_widget refused_state)) = Some refusal \<and>
   this_config (snd (reload counting_hooks demo_widget refused_state)) = [(''title'', ''Hello'')] \<and>
   config refusal \<noteq> [(''title'', ''Hello'')]"
proof -
  have cf: "this_config refused_state = [(''title'', ''Hello'')]"
    by (simp add: refused_state_def)
  have ne: "config refusal \<noteq> [(''title'', ''Hello'')]"
    by (simp add: refusal_def)
  from reload_overwrites_authData [of demo_widget refused_state counting_hooks]
    refused_fresh refusal_unauthorized cf ne
  show ?thesis by simp
qed

end
